theory Spec2Isabelle
  imports Main "HOL-Library.Word" "HOL-Library.Sublist"
begin

unbundle bit_operations_syntax

section \<open>Data model of disk\_led\_monitor.c\<close>

text \<open>
  The program polls \<^verbatim>\<open>/proc/diskstats\<close>, hashes the line of one disk and blinks an LED
  through \<^verbatim>\<open>/sys/class/leds/<led>/brightness\<close> when the hash changes.

  Bytes of a C \<^verbatim>\<open>char\<close> buffer are \<open>8 word\<close>; a buffer is the list of its bytes, and the
  C string it holds ends at the first NUL byte (or at the end of the list, where the
  terminator sits). A C \<^verbatim>\<open>int\<close> that is incremented is a \<open>32 word\<close> (two's complement
  wrap-around). \<^verbatim>\<open>unsigned long\<close> is \<open>'a word\<close> for any width \<open>'a\<close>: 64 bits on
  LP64 Linux, 32 bits on 32-bit Linux.
\<close>

type_synonym byte = "8 word"
type_synonym c_int = "32 word"

definition MAX_LINE_LENGTH :: nat where
  "MAX_LINE_LENGTH = 1024"

definition MONITOR_INTERVAL :: nat where
  "MONITOR_INTERVAL = 100000"

definition LED_BLINK_DURATION :: nat where
  "LED_BLINK_DURATION = 50000"

text \<open>
  The process-wide configuration: the globals \<^verbatim>\<open>target_disk\<close>, \<^verbatim>\<open>target_led\<close> and
  \<^verbatim>\<open>debug_mode\<close>, set once by the option parser. \<open>char_signed\<close> is the platform's
  choice for plain \<^verbatim>\<open>char\<close> (signed on x86, unsigned on ARM Linux), which decides the
  value of \<^verbatim>\<open>c = *str++\<close> for bytes above 127.
\<close>

record config =
  target_disk :: "byte list"
  target_led :: "byte list"
  debug_mode :: bool
  char_signed :: bool

text \<open>What one attempt to write the LED's brightness file comes to.\<close>

datatype io_outcome =
    Open_failed     \<comment> \<open>\<^verbatim>\<open>fopen\<close> returned NULL\<close>
  | Write_failed    \<comment> \<open>the file opened, but \<^verbatim>\<open>fprintf\<close>/\<^verbatim>\<open>fclose\<close> failed (unchecked by the code)\<close>
  | Written         \<comment> \<open>the value reached the LED\<close>

datatype message =
    Msg_signal int                     \<comment> \<open>\<^verbatim>\<open>Received signal %d, shutting down...\<close>\<close>
  | Msg_diskstats_open_failed          \<comment> \<open>\<^verbatim>\<open>perror("Failed to open /proc/diskstats")\<close>\<close>
  | Msg_disk_not_found "byte list"     \<comment> \<open>\<^verbatim>\<open>Warning: Disk '%s' not found in /proc/diskstats\<close>\<close>
  | Msg_led_open_failed                \<comment> \<open>\<^verbatim>\<open>perror("Failed to open LED brightness file")\<close>\<close>
  | Msg_activity "byte list" c_int     \<comment> \<open>\<^verbatim>\<open>Disk activity detected on %s! (Count: %d)\<close>\<close>
  | Msg_shutdown c_int                 \<comment> \<open>\<^verbatim>\<open>Shutting down. Total disk activities detected: %d\<close>\<close>

datatype event =
    Stdout message
  | Stderr message
  | Led_attempt int io_outcome         \<comment> \<open>\<^verbatim>\<open>set_led_brightness(b)\<close> and what came of it\<close>
  | Usleep nat

text \<open>
  The state of the running process: the global \<^verbatim>\<open>running\<close>, the locals \<^verbatim>\<open>last_hash\<close>
  and \<^verbatim>\<open>activity_count\<close> of \<^verbatim>\<open>main\<close>, the brightness the LED holds, and the trace of
  everything the process did to the outside.
\<close>

record 'h machine =
  running :: c_int
  last_hash :: 'h
  activity_count :: c_int
  led :: int
  trace :: "event list"

text \<open>
  Places of one loop iteration at which the signal handler can run. A signal that comes
  while \<^verbatim>\<open>usleep\<close> sleeps ends the sleep early; the handler runs, and the program goes on
  with the statement after the \<^verbatim>\<open>usleep\<close>.
\<close>

datatype point =
    At_loop_test | Before_read | After_read | After_count | After_log
  | After_led_on | After_hold | After_led_off | After_baseline | During_wait

text \<open>
  What the outside does during one loop iteration: the content of \<^verbatim>\<open>/proc/diskstats\<close>
  (\<open>None\<close> when it cannot be opened), the outcome of the two LED writes, and the signals
  that arrive, each with the place where its handler runs.
\<close>

record tick_env =
  diskstats :: "byte list option"
  led_on :: io_outcome
  led_off :: io_outcome
  signals :: "(point \<times> int) list"

section \<open>The functions of the program\<close>

definition emit :: "event \<Rightarrow> 'h machine \<Rightarrow> 'h machine" where
  "emit e s = s\<lparr>trace := trace s @ [e]\<rparr>"

definition usleep :: "nat \<Rightarrow> 'h machine \<Rightarrow> 'h machine" where
  "usleep usec s = emit (Usleep usec) s"

definition signal_handler :: "config \<Rightarrow> int \<Rightarrow> 'h machine \<Rightarrow> 'h machine" where
  "signal_handler cfg sig s =
     (let s1 = (if debug_mode cfg then emit (Stdout (Msg_signal sig)) s else s)
      in s1\<lparr>running := 0\<rparr>)"

text \<open>The handlers of the signals that arrive at place \<open>p\<close>, in their order.\<close>

definition deliver :: "config \<Rightarrow> tick_env \<Rightarrow> point \<Rightarrow> 'h machine \<Rightarrow> 'h machine" where
  "deliver cfg env p s =
     fold (signal_handler cfg) (map snd (filter (\<lambda>x. fst x = p) (signals env))) s"

subsection \<open>Strings of the C library\<close>

definition cstr :: "byte list \<Rightarrow> byte list" where
  "cstr buf = takeWhile (\<lambda>b. b \<noteq> 0) buf"

text \<open>The \<^verbatim>\<open>int\<close> that \<^verbatim>\<open>c = *str++\<close> gives for a byte of a \<^verbatim>\<open>const char *\<close>.\<close>

definition char_value :: "bool \<Rightarrow> byte \<Rightarrow> int" where
  "char_value sch b = (if sch then sint b else uint b)"

text \<open>\<^verbatim>\<open>strstr\<close> on string contents: the suffix at the first occurrence, or \<open>None\<close> for NULL.\<close>

fun find_sub :: "byte list \<Rightarrow> byte list \<Rightarrow> byte list option" where
  "find_sub [] needle = (if needle = [] then Some [] else None)"
| "find_sub (h # hs) needle =
     (if prefix needle (h # hs) then Some (h # hs) else find_sub hs needle)"

definition strstr :: "byte list \<Rightarrow> byte list \<Rightarrow> byte list option" where
  "strstr haystack needle = find_sub (cstr haystack) (cstr needle)"

text \<open>
  \<^verbatim>\<open>fgets(buffer, n, file)\<close> on the bytes left in the stream: at most \<open>n - 1\<close> bytes,
  up to and with the first newline; NULL (\<open>None\<close>) at the end of the file. The result is
  the buffer's content and the rest of the stream.
\<close>

fun read_line :: "nat \<Rightarrow> byte list \<Rightarrow> byte list \<times> byte list" where
  "read_line n [] = ([], [])"
| "read_line n (b # bs) =
     (if n = 0 then ([], b # bs)
      else if b = 10 then ([b], bs)
      else (let (l, r) = read_line (n - 1) bs in (b # l, r)))"

definition fgets :: "nat \<Rightarrow> byte list \<Rightarrow> (byte list \<times> byte list) option" where
  "fgets n stream = (if stream = [] then None else Some (read_line (n - 1) stream))"

subsection \<open>hash\_string\<close>

fun hash_loop :: "bool \<Rightarrow> 'a::len word \<Rightarrow> byte list \<Rightarrow> 'a word" where
  "hash_loop sch hash [] = hash"
| "hash_loop sch hash (b # str) =
     (if b = 0 then hash
      else hash_loop sch ((push_bit 5 hash + hash) + of_int (char_value sch b)) str)"

definition hash_string :: "bool \<Rightarrow> byte list \<Rightarrow> 'a::len word" where
  "hash_string sch str = hash_loop sch 5381 str"

text \<open>
  The DJB2 scheme in the words of the specification: seed 5381, and for each byte of the
  line the accumulator becomes \<open>accumulator * 33 + byte\<close>. \<open>val\<close> gives the number a
  byte stands for.
\<close>

definition djb2_spec :: "(byte \<Rightarrow> int) \<Rightarrow> byte list \<Rightarrow> 'a::len word" where
  "djb2_spec val line = foldl (\<lambda>accumulator b. accumulator * 33 + of_int (val b)) 5381 line"

subsection \<open>get\_diskstats\_hash\<close>

text \<open>The \<^verbatim>\<open>while (fgets ...)\<close> loop: the values of \<^verbatim>\<open>found\<close> and \<^verbatim>\<open>hash\<close> when it ends.\<close>

function diskstats_scan :: "config \<Rightarrow> byte list \<Rightarrow> bool \<times> 'a::len word" where
  "diskstats_scan cfg stream =
     (case fgets MAX_LINE_LENGTH stream of
        None \<Rightarrow> (False, 0)
      | Some (buffer, rest) \<Rightarrow>
          if strstr buffer (target_disk cfg) \<noteq> None
          then (True, hash_string (char_signed cfg) buffer)
          else diskstats_scan cfg rest)"
  by pat_completeness auto
termination
proof (relation "measure (\<lambda>(cfg, stream). length stream)", goal_cases)
  case 1
  show ?case by simp
next
  case (2 cfg stream x2 x y)
  have shorter: "length (snd (read_line n bs)) \<le> length bs" for n and bs :: "byte list"
  proof (induction bs arbitrary: n)
    case Nil
    show ?case by simp
  next
    case (Cons a bs)
    show ?case
      using Cons [of "n - 1"] by (cases "read_line (n - 1) bs") simp
  qed
  from 2 obtain b bs where s: "stream = b # bs" and r: "read_line 1023 (b # bs) = (x, y)"
    by (cases stream) (auto simp: fgets_def MAX_LINE_LENGTH_def split: if_splits)
  have "length y \<le> length bs"
    using r shorter [of 1022 bs] by (auto split: if_splits prod.splits)
  then show ?case
    by (simp add: s)
qed

declare diskstats_scan.simps [simp del]

text \<open>
  \<^verbatim>\<open>get_diskstats_hash\<close>: the file is opened anew by each call (the argument is what
  \<^verbatim>\<open>/proc/diskstats\<close> holds at that moment) and closed before the call returns.
\<close>

definition get_diskstats_hash ::
  "config \<Rightarrow> byte list option \<Rightarrow> 'a::len word machine \<Rightarrow> 'a word \<times> 'a word machine" where
  "get_diskstats_hash cfg file s =
     (case file of
        None \<Rightarrow>
          (0, if debug_mode cfg then emit (Stderr Msg_diskstats_open_failed) s else s)
      | Some content \<Rightarrow>
          (let (found, hash) = diskstats_scan cfg content
           in (hash,
               if \<not> found \<and> debug_mode cfg
               then emit (Stderr (Msg_disk_not_found (target_disk cfg))) s else s)))"

subsection \<open>set\_led\_brightness and blink\_led\<close>

text \<open>
  \<^verbatim>\<open>set_led_brightness\<close> returns \<open>-1\<close> when the brightness file cannot be opened and
  \<open>0\<close> otherwise; the results of \<^verbatim>\<open>fprintf\<close> and \<^verbatim>\<open>fclose\<close> are not looked at.
\<close>

definition set_led_brightness ::
  "config \<Rightarrow> io_outcome \<Rightarrow> int \<Rightarrow> 'h machine \<Rightarrow> c_int \<times> 'h machine" where
  "set_led_brightness cfg outcome brightness s =
     (case outcome of
        Open_failed \<Rightarrow>
          (let s1 = emit (Led_attempt brightness Open_failed) s
           in (- 1, if debug_mode cfg then emit (Stderr Msg_led_open_failed) s1 else s1))
      | Write_failed \<Rightarrow> (0, emit (Led_attempt brightness Write_failed) s)
      | Written \<Rightarrow> (0, (emit (Led_attempt brightness Written) s)\<lparr>led := brightness\<rparr>))"

text \<open>\<^verbatim>\<open>blink_led\<close> is a \<^verbatim>\<open>void\<close> function: it drops both results.\<close>

definition blink_led :: "config \<Rightarrow> tick_env \<Rightarrow> 'h machine \<Rightarrow> 'h machine" where
  "blink_led cfg env s =
     (let s1 = deliver cfg env After_led_on (snd (set_led_brightness cfg (led_on env) 1 s));
          s2 = deliver cfg env After_hold (usleep LED_BLINK_DURATION s1)
      in deliver cfg env After_led_off (snd (set_led_brightness cfg (led_off env) 0 s2)))"

subsection \<open>The loop of main\<close>

text \<open>
  The loop body after \<^verbatim>\<open>current_hash = get_diskstats_hash()\<close>: the comparison, the
  pulse and the wait.
\<close>

definition handle_reading ::
  "config \<Rightarrow> tick_env \<Rightarrow> 'a::len word \<Rightarrow> 'a word machine \<Rightarrow> 'a word machine" where
  "handle_reading cfg env current_hash s =
     (let s3 =
        (if current_hash \<noteq> last_hash s \<and> current_hash \<noteq> 0 then
           (let s1 = deliver cfg env After_count (s\<lparr>activity_count := activity_count s + 1\<rparr>);
                s2 = deliver cfg env After_log
                       (if debug_mode cfg
                        then emit (Stdout (Msg_activity (target_disk cfg) (activity_count s1))) s1
                        else s1)
            in deliver cfg env After_baseline ((blink_led cfg env s2)\<lparr>last_hash := current_hash\<rparr>))
         else s)
      in deliver cfg env During_wait (usleep MONITOR_INTERVAL s3))"

text \<open>One iteration of \<^verbatim>\<open>while (running)\<close>.\<close>

definition tick :: "config \<Rightarrow> tick_env \<Rightarrow> 'a::len word machine \<Rightarrow> 'a word machine" where
  "tick cfg env s =
     (let (current_hash, s1) = get_diskstats_hash cfg (diskstats env) (deliver cfg env Before_read s)
      in handle_reading cfg env current_hash (deliver cfg env After_read s1))"

text \<open>
  The loop. The list holds what the outside does in the iterations to come; \<open>None\<close> says
  that the loop is still running when the list is used up.
\<close>

fun main_loop :: "config \<Rightarrow> tick_env list \<Rightarrow> 'a::len word machine \<Rightarrow> 'a word machine option" where
  "main_loop cfg [] s = (if running s \<noteq> 0 then None else Some s)"
| "main_loop cfg (env # envs) s =
     (let s1 = deliver cfg env At_loop_test s
      in if running s1 \<noteq> 0 then main_loop cfg envs (tick cfg env s1) else Some s1)"

text \<open>The loop and what follows it: the summary in verbose mode and \<^verbatim>\<open>return 0\<close>.\<close>

definition main_run ::
  "config \<Rightarrow> tick_env list \<Rightarrow> 'a::len word machine \<Rightarrow> (c_int \<times> 'a word machine) option" where
  "main_run cfg envs s =
     (case main_loop cfg envs s of
        None \<Rightarrow> None
      | Some s1 \<Rightarrow>
          Some (0, if debug_mode cfg
                   then emit (Stdout (Msg_shutdown (activity_count s1))) s1 else s1))"

text \<open>\<^verbatim>\<open>main\<close> from the first reading on.\<close>

definition main_core ::
  "config \<Rightarrow> byte list option \<Rightarrow> tick_env list \<Rightarrow> 'a::len word machine
     \<Rightarrow> (c_int \<times> 'a word machine) option" where
  "main_core cfg first_file envs s =
     (let (h, s1) = get_diskstats_hash cfg first_file s
      in main_run cfg envs (s1\<lparr>last_hash := h, activity_count := 0\<rparr>))"

subsection \<open>What an observer of the trace sees\<close>

fun is_led_attempt :: "event \<Rightarrow> bool" where
  "is_led_attempt (Led_attempt b r) = True"
| "is_led_attempt e = False"

fun is_actuator_event :: "event \<Rightarrow> bool" where
  "is_actuator_event (Led_attempt b r) = True"
| "is_actuator_event (Usleep n) = True"
| "is_actuator_event e = False"

text \<open>The attempts to write the LED, in their order.\<close>

definition led_attempts :: "'h machine \<Rightarrow> event list" where
  "led_attempts s = filter is_led_attempt (trace s)"

text \<open>The attempts to write the LED and the sleeps between them.\<close>

definition actuator_events :: "'h machine \<Rightarrow> event list" where
  "actuator_events s = filter is_actuator_event (trace s)"

text \<open>The variables of the program, without the outside (LED and trace).\<close>

definition program_vars :: "'h machine \<Rightarrow> c_int \<times> 'h \<times> c_int" where
  "program_vars s = (running s, last_hash s, activity_count s)"

text \<open>Two machines that differ at most in the flag \<open>running\<close>.\<close>

definition same_but_running :: "'h machine \<Rightarrow> 'h machine \<Rightarrow> bool" where
  "same_but_running s t =
     (last_hash s = last_hash t \<and> activity_count s = activity_count t \<and> led s = led t
      \<and> trace s = trace t)"

subsection \<open>A concrete run\<close>

text \<open>
  Disk \<^verbatim>\<open>sda\<close>, LED \<^verbatim>\<open>led0\<close>, quiet mode. The file is first
  \<^verbatim>\<open>8 1 sdb 5\<close>, \<^verbatim>\<open>8 0 sda 7\<close> and then \<^verbatim>\<open>8 1 sdb 5\<close>, \<^verbatim>\<open>8 0 sda 9\<close>
  (bytes in ASCII, each line with its newline).
\<close>

definition example_cfg :: config where
  "example_cfg =
     \<lparr>target_disk = [115, 100, 97], target_led = [108, 101, 100, 48],
      debug_mode = False, char_signed = True\<rparr>"

definition example_file_a :: "byte list" where
  "example_file_a =
     [56, 32, 49, 32, 115, 100, 98, 32, 53, 10, 56, 32, 48, 32, 115, 100, 97, 32, 55, 10]"

definition example_file_b :: "byte list" where
  "example_file_b =
     [56, 32, 49, 32, 115, 100, 98, 32, 53, 10, 56, 32, 48, 32, 115, 100, 97, 32, 57, 10]"

text \<open>A file without a line for the disk: \<^verbatim>\<open>8 1 sdb 5\<close>.\<close>

definition example_file_other :: "byte list" where
  "example_file_other = [56, 32, 49, 32, 115, 100, 98, 32, 53, 10]"

text \<open>The line of \<^verbatim>\<open>sda\<close> in the first file.\<close>

definition example_line_a :: "byte list" where
  "example_line_a = [56, 32, 48, 32, 115, 100, 97, 32, 55, 10]"

text \<open>
  A line of 1025 bytes: 1021 times \<^verbatim>\<open>x\<close>, then \<^verbatim>\<open>sda\<close> and the newline. And a line
  that begins with a NUL byte.
\<close>

definition example_long_line :: "byte list" where
  "example_long_line = replicate 1021 120 @ [115, 100, 97, 10]"

definition example_nul_line :: "byte list" where
  "example_nul_line = [0, 115, 100, 97, 10]"

text \<open>The line \<^verbatim>\<open>sda\<close> with its newline.\<close>

definition example_line :: "byte list" where
  "example_line = [115, 100, 97, 10]"

definition example_env :: "byte list option \<Rightarrow> tick_env" where
  "example_env file = \<lparr>diskstats = file, led_on = Written, led_off = Written, signals = []\<rparr>"

text \<open>The second file, with a signal \<^verbatim>\<open>SIGINT\<close> that arrives after the activating write.\<close>

definition example_env_signal :: tick_env where
  "example_env_signal =
     \<lparr>diskstats = Some example_file_b, led_on = Written, led_off = Written,
      signals = [(After_led_on, 2)]\<rparr>"

text \<open>
  The second file, with the same signal and an LED whose brightness file cannot be opened
  for the deactivating write.
\<close>

definition example_env_stuck :: tick_env where
  "example_env_stuck =
     \<lparr>diskstats = Some example_file_b, led_on = Written, led_off = Open_failed,
      signals = [(After_led_on, 2)]\<rparr>"

text \<open>The second file, with an LED whose brightness file cannot be written.\<close>

definition example_env_failing :: tick_env where
  "example_env_failing =
     \<lparr>diskstats = Some example_file_b, led_on = Open_failed, led_off = Write_failed,
      signals = []\<rparr>"

text \<open>The machine after a first reading of \<open>example_file_a\<close> on a 64-bit platform.\<close>

definition example_machine :: "64 word machine" where
  "example_machine =
     \<lparr>running = 1, last_hash = 8244072659545215910, activity_count = 0, led = 0, trace = []\<rparr>"

section \<open>Properties\<close>

subsection \<open>The handler, the writes and the pulse, field by field\<close>

lemma fold_handler_fields:
  "last_hash (fold (signal_handler cfg) sigs s) = last_hash s"
  "activity_count (fold (signal_handler cfg) sigs s) = activity_count s"
  "led (fold (signal_handler cfg) sigs s) = led s"
  "running (fold (signal_handler cfg) sigs s) = (if sigs = [] then running s else 0)"
  by (induction sigs arbitrary: s) (simp_all add: signal_handler_def emit_def Let_def)

lemma fold_handler_trace:
  "filter is_actuator_event (trace (fold (signal_handler cfg) sigs s)) = filter is_actuator_event (trace s)"
  "filter is_led_attempt (trace (fold (signal_handler cfg) sigs s)) = filter is_led_attempt (trace s)"
  by (induction sigs arbitrary: s) (simp_all add: signal_handler_def emit_def Let_def)

lemma deliver_fields [simp]:
  "last_hash (deliver cfg env p s) = last_hash s"
  "activity_count (deliver cfg env p s) = activity_count s"
  "led (deliver cfg env p s) = led s"
  by (simp_all add: deliver_def fold_handler_fields)

lemma deliver_running:
  "running (deliver cfg env p s) = (if p \<in> fst ` set (signals env) then 0 else running s)"
proof -
  have "(map snd (filter (\<lambda>x. fst x = p) (signals env)) = []) = (p \<notin> fst ` set (signals env))"
    by (auto simp: filter_empty_conv)
  then show ?thesis
    by (simp add: deliver_def fold_handler_fields)
qed

lemma deliver_observed [simp]:
  "actuator_events (deliver cfg env p s) = actuator_events s"
  "led_attempts (deliver cfg env p s) = led_attempts s"
  by (simp_all add: deliver_def actuator_events_def led_attempts_def fold_handler_trace)

lemma set_led_brightness_fields [simp]:
  "last_hash (snd (set_led_brightness cfg r b s)) = last_hash s"
  "activity_count (snd (set_led_brightness cfg r b s)) = activity_count s"
  "running (snd (set_led_brightness cfg r b s)) = running s"
  "led (snd (set_led_brightness cfg r b s)) = (if r = Written then b else led s)"
  by (cases r; simp add: set_led_brightness_def emit_def Let_def)+

lemma set_led_brightness_observed [simp]:
  "actuator_events (snd (set_led_brightness cfg r b s)) = actuator_events s @ [Led_attempt b r]"
  "led_attempts (snd (set_led_brightness cfg r b s)) = led_attempts s @ [Led_attempt b r]"
  by (cases r; simp add: set_led_brightness_def emit_def Let_def actuator_events_def led_attempts_def)+

lemma usleep_fields [simp]:
  "last_hash (usleep n s) = last_hash s"
  "activity_count (usleep n s) = activity_count s"
  "running (usleep n s) = running s"
  "led (usleep n s) = led s"
  "actuator_events (usleep n s) = actuator_events s @ [Usleep n]"
  "led_attempts (usleep n s) = led_attempts s"
  by (simp_all add: usleep_def emit_def actuator_events_def led_attempts_def)

lemma blink_led_fields [simp]:
  "last_hash (blink_led cfg env s) = last_hash s"
  "activity_count (blink_led cfg env s) = activity_count s"
  "led (blink_led cfg env s) =
     (if led_off env = Written then 0 else if led_on env = Written then 1 else led s)"
  by (simp_all add: blink_led_def Let_def)

lemma blink_led_observed [simp]:
  "actuator_events (blink_led cfg env s) =
     actuator_events s @ [Led_attempt 1 (led_on env), Usleep LED_BLINK_DURATION, Led_attempt 0 (led_off env)]"
  "led_attempts (blink_led cfg env s) =
     led_attempts s @ [Led_attempt 1 (led_on env), Led_attempt 0 (led_off env)]"
  by (simp_all add: blink_led_def Let_def)

lemma observed_update [simp]:
  "actuator_events (s\<lparr>last_hash := h\<rparr>) = actuator_events s"
  "actuator_events (s\<lparr>activity_count := c\<rparr>) = actuator_events s"
  "actuator_events (s\<lparr>running := r\<rparr>) = actuator_events s"
  "led_attempts (s\<lparr>last_hash := h\<rparr>) = led_attempts s"
  "led_attempts (s\<lparr>activity_count := c\<rparr>) = led_attempts s"
  "led_attempts (s\<lparr>running := r\<rparr>) = led_attempts s"
  "actuator_events (emit (Stdout m) s) = actuator_events s"
  "actuator_events (emit (Stderr m) s) = actuator_events s"
  "led_attempts (emit (Stdout m) s) = led_attempts s"
  "led_attempts (emit (Stderr m) s) = led_attempts s"
  by (simp_all add: actuator_events_def led_attempts_def emit_def)

lemma emit_fields [simp]:
  "last_hash (emit e s) = last_hash s"
  "activity_count (emit e s) = activity_count s"
  "running (emit e s) = running s"
  "led (emit e s) = led s"
  by (simp_all add: emit_def)

lemma handle_reading_changed:
  assumes "current \<noteq> last_hash s" and "current \<noteq> 0"
  shows "last_hash (handle_reading cfg env current s) = current"
    and "activity_count (handle_reading cfg env current s) = activity_count s + 1"
    and "led (handle_reading cfg env current s) =
           (if led_off env = Written then 0 else if led_on env = Written then 1 else led s)"
    and "led_attempts (handle_reading cfg env current s) =
           led_attempts s @ [Led_attempt 1 (led_on env), Led_attempt 0 (led_off env)]"
    and "actuator_events (handle_reading cfg env current s) =
           actuator_events s @ [Led_attempt 1 (led_on env), Usleep LED_BLINK_DURATION,
             Led_attempt 0 (led_off env), Usleep MONITOR_INTERVAL]"
  using assms by (simp_all add: handle_reading_def Let_def)

lemma handle_reading_unchanged:
  assumes "current = last_hash s \<or> current = 0"
  shows "last_hash (handle_reading cfg env current s) = last_hash s"
    and "activity_count (handle_reading cfg env current s) = activity_count s"
    and "led (handle_reading cfg env current s) = led s"
    and "led_attempts (handle_reading cfg env current s) = led_attempts s"
    and "actuator_events (handle_reading cfg env current s) =
           actuator_events s @ [Usleep MONITOR_INTERVAL]"
  using assms by (auto simp add: handle_reading_def Let_def)

lemma get_diskstats_hash_value:
  "fst (get_diskstats_hash cfg file s) = fst (get_diskstats_hash cfg file s')"
  by (simp add: get_diskstats_hash_def split: option.split prod.split)

lemma get_diskstats_hash_fields [simp]:
  "last_hash (snd (get_diskstats_hash cfg file s)) = last_hash s"
  "activity_count (snd (get_diskstats_hash cfg file s)) = activity_count s"
  "running (snd (get_diskstats_hash cfg file s)) = running s"
  "led (snd (get_diskstats_hash cfg file s)) = led s"
  "led_attempts (snd (get_diskstats_hash cfg file s)) = led_attempts s"
  "actuator_events (snd (get_diskstats_hash cfg file s)) = actuator_events s"
  by (simp_all add: get_diskstats_hash_def split: option.split prod.split)

lemma tick_handle_reading:
  "tick cfg env s =
     handle_reading cfg env (fst (get_diskstats_hash cfg (diskstats env) s))
       (deliver cfg env After_read
          (snd (get_diskstats_hash cfg (diskstats env) (deliver cfg env Before_read s))))"
  using get_diskstats_hash_value [of cfg "diskstats env" s "deliver cfg env Before_read s"]
  by (simp add: tick_def case_prod_beta)

lemma example_reading_a:
  "fst (get_diskstats_hash example_cfg (Some example_file_a) (s :: 64 word machine)) = 8244072659545215910"
  by (simp add: get_diskstats_hash_def diskstats_scan.simps example_cfg_def example_file_a_def
      fgets_def MAX_LINE_LENGTH_def strstr_def cstr_def hash_string_def char_value_def)

lemma example_reading_b:
  "fst (get_diskstats_hash example_cfg (Some example_file_b) (s :: 64 word machine)) = 8244072659545215976"
  by (simp add: get_diskstats_hash_def diskstats_scan.simps example_cfg_def example_file_b_def
      fgets_def MAX_LINE_LENGTH_def strstr_def cstr_def hash_string_def char_value_def)

lemma example_machine_fields [simp]:
  "running example_machine = 1"
  "last_hash example_machine = 8244072659545215910"
  "activity_count example_machine = 0"
  "led example_machine = 0"
  "led_attempts example_machine = []"
  "actuator_events example_machine = []"
  by (simp_all add: example_machine_def led_attempts_def actuator_events_def)

lemma example_env_fields [simp]:
  "diskstats (example_env file) = file"
  "led_on (example_env file) = Written"
  "led_off (example_env file) = Written"
  "signals (example_env file) = []"
  by (simp_all add: example_env_def)


subsection \<open>The change decision\<close>

text \<open>
  Claim C1. For all fingerprints previous (the stored \<open>last_hash\<close>) and current, the loop
  iteration decides for a change, and signals it by a pulse, if and only if
  \<open>current \<noteq> previous\<close> and \<open>current \<noteq> 0\<close>. This holds for every value handed to the
  comparison and for the value each tick reads. In particular a zero current fingerprint
  never triggers a signal, and a fingerprint equal to the baseline never does.
\<close>

theorem change_decision_iff:
  "((led_attempts (handle_reading cfg env current s) \<noteq> led_attempts s)
      = (current \<noteq> last_hash s \<and> current \<noteq> 0))
   \<and> ((led_attempts (tick cfg env s) \<noteq> led_attempts s)
      = (fst (get_diskstats_hash cfg (diskstats env) s) \<noteq> last_hash s
         \<and> fst (get_diskstats_hash cfg (diskstats env) s) \<noteq> 0))
   \<and> led_attempts (handle_reading cfg env 0 s) = led_attempts s
   \<and> led_attempts (handle_reading cfg env (last_hash s) s) = led_attempts s"
proof -
  have a: "(led_attempts (handle_reading cfg env c t) \<noteq> led_attempts t)
      = (c \<noteq> last_hash t \<and> c \<noteq> 0)" for c and t :: "'a word machine"
    using handle_reading_changed(4) [of c t cfg env] handle_reading_unchanged(4) [of c t cfg env]
    by auto
  have b: "(led_attempts (tick cfg env s) \<noteq> led_attempts s)
      = (fst (get_diskstats_hash cfg (diskstats env) s) \<noteq> last_hash s
         \<and> fst (get_diskstats_hash cfg (diskstats env) s) \<noteq> 0)"
    unfolding tick_handle_reading
    using a [of "fst (get_diskstats_hash cfg (diskstats env) s)"
        "deliver cfg env After_read
          (snd (get_diskstats_hash cfg (diskstats env) (deliver cfg env Before_read s)))"]
    by simp
  show ?thesis
    using a [of current s] a [of 0 s] a [of "last_hash s" s] b by simp
qed

subsection \<open>The pulse\<close>

text \<open>
  Claim C10. In every pulse the deactivating write (brightness 0) is attempted after the
  hold, whatever came of the activating write: also when opening the brightness file for
  the activating write failed (\<^verbatim>\<open>set_led_brightness\<close> returned \<open>-1\<close>), the trace of the
  pulse is the activating attempt, the sleep of \<open>LED_BLINK_DURATION\<close> and the deactivating
  attempt, and a deactivating write that succeeds leaves the LED off.
\<close>

theorem blink_led_always_turns_off:
  "actuator_events (blink_led cfg env s) =
     actuator_events s @
       [Led_attempt 1 (led_on env), Usleep LED_BLINK_DURATION, Led_attempt 0 (led_off env)]
   \<and> actuator_events (blink_led cfg (env\<lparr>led_on := Open_failed\<rparr>) s) =
     actuator_events s @
       [Led_attempt 1 Open_failed, Usleep LED_BLINK_DURATION, Led_attempt 0 (led_off env)]
   \<and> fst (set_led_brightness cfg Open_failed 1 s) = - 1
   \<and> led (blink_led cfg (env\<lparr>led_on := r, led_off := Written\<rparr>) s) = 0"
  by (simp add: set_led_brightness_def Let_def)


lemma tick_changed:
  assumes "fst (get_diskstats_hash cfg (diskstats env) s) = current"
    and "current \<noteq> last_hash s" and "current \<noteq> 0"
  shows "last_hash (tick cfg env s) = current"
    and "activity_count (tick cfg env s) = activity_count s + 1"
    and "led (tick cfg env s) =
           (if led_off env = Written then 0 else if led_on env = Written then 1 else led s)"
    and "led_attempts (tick cfg env s) =
           led_attempts s @ [Led_attempt 1 (led_on env), Led_attempt 0 (led_off env)]"
    and "actuator_events (tick cfg env s) =
           actuator_events s @ [Led_attempt 1 (led_on env), Usleep LED_BLINK_DURATION,
             Led_attempt 0 (led_off env), Usleep MONITOR_INTERVAL]"
  using assms by (simp_all add: tick_handle_reading handle_reading_changed)

lemma tick_unchanged:
  assumes "fst (get_diskstats_hash cfg (diskstats env) s) = current"
    and "current = last_hash s \<or> current = 0"
  shows "last_hash (tick cfg env s) = last_hash s"
    and "activity_count (tick cfg env s) = activity_count s"
    and "led (tick cfg env s) = led s"
    and "led_attempts (tick cfg env s) = led_attempts s"
    and "actuator_events (tick cfg env s) = actuator_events s @ [Usleep MONITOR_INTERVAL]"
  using assms by (simp_all add: tick_handle_reading handle_reading_unchanged)

subsection \<open>One tick\<close>

text \<open>
  Claim C3. On a tick whose current fingerprint is non-zero and differs from the stored
  baseline, exactly one pulse is emitted (one activating and one deactivating attempt are
  added to the LED's history), the activity counter goes up by one (a C \<^verbatim>\<open>int\<close>, here
  modulo \<open>2^32\<close>) and the baseline becomes the new fingerprint before the next comparison:
  a next tick that reads the same fingerprint emits nothing. On a tick whose fingerprint
  equals the baseline no pulse is emitted.
\<close>

theorem tick_on_change:
  assumes "fst (get_diskstats_hash cfg (diskstats env) s) = current"
  shows "(current \<noteq> 0 \<and> current \<noteq> last_hash s \<longrightarrow>
            led_attempts (tick cfg env s) =
              led_attempts s @ [Led_attempt 1 (led_on env), Led_attempt 0 (led_off env)]
          \<and> activity_count (tick cfg env s) = activity_count s + 1
          \<and> last_hash (tick cfg env s) = current
          \<and> (fst (get_diskstats_hash cfg (diskstats env') (tick cfg env s)) = current \<longrightarrow>
               led_attempts (tick cfg env' (tick cfg env s)) = led_attempts (tick cfg env s)))
       \<and> (current = last_hash s \<longrightarrow> led_attempts (tick cfg env s) = led_attempts s)"
proof (intro conjI impI)
  assume c: "current \<noteq> 0 \<and> current \<noteq> last_hash s"
  show "led_attempts (tick cfg env s) =
      led_attempts s @ [Led_attempt 1 (led_on env), Led_attempt 0 (led_off env)]"
    using assms c by (simp add: tick_changed)
  show "activity_count (tick cfg env s) = activity_count s + 1"
    using assms c by (simp add: tick_changed)
  show base: "last_hash (tick cfg env s) = current"
    using assms c by (simp add: tick_changed)
  assume "fst (get_diskstats_hash cfg (diskstats env') (tick cfg env s)) = current"
  then show "led_attempts (tick cfg env' (tick cfg env s)) = led_attempts (tick cfg env s)"
    using base by (simp add: tick_unchanged)
next
  assume "current = last_hash s"
  then show "led_attempts (tick cfg env s) = led_attempts s"
    using assms by (simp add: tick_unchanged)
qed

theorem tick_on_change_witness:
  "fst (get_diskstats_hash example_cfg (diskstats (example_env (Some example_file_b))) example_machine)
     = 8244072659545215976
   \<and> (8244072659545215976 :: 64 word) \<noteq> 0
   \<and> (8244072659545215976 :: 64 word) \<noteq> last_hash example_machine
   \<and> led_attempts (tick example_cfg (example_env (Some example_file_b)) example_machine)
       = [Led_attempt 1 Written, Led_attempt 0 Written]
   \<and> activity_count (tick example_cfg (example_env (Some example_file_b)) example_machine) = 1
   \<and> last_hash (tick example_cfg (example_env (Some example_file_b)) example_machine)
       = 8244072659545215976
   \<and> led_attempts (tick example_cfg (example_env (Some example_file_b))
        (tick example_cfg (example_env (Some example_file_b)) example_machine))
       = [Led_attempt 1 Written, Led_attempt 0 Written]
   \<and> fst (get_diskstats_hash example_cfg (diskstats (example_env (Some example_file_a))) example_machine)
       = last_hash example_machine
   \<and> led_attempts (tick example_cfg (example_env (Some example_file_a)) example_machine) = []"
  using tick_on_change [of example_cfg "example_env (Some example_file_b)" example_machine
      8244072659545215976 "example_env (Some example_file_b)"]
    tick_on_change [of example_cfg "example_env (Some example_file_a)" example_machine
      8244072659545215910 "example_env (Some example_file_a)"]
  by (simp add: example_reading_a example_reading_b)

lemma diskstats_scan_not_found:
  "\<not> fst (diskstats_scan cfg stream :: bool \<times> 'a::len word)
     \<Longrightarrow> snd (diskstats_scan cfg stream :: bool \<times> 'a word) = 0"
proof (induction cfg stream rule: diskstats_scan.induct)
  case (1 cfg stream)
  show ?case
  proof (cases "fgets MAX_LINE_LENGTH stream")
    case None
    then show ?thesis
      by (simp add: diskstats_scan.simps [of cfg stream])
  next
    case (Some got)
    obtain buffer rest where got: "got = (buffer, rest)"
      by (cases got)
    show ?thesis
    proof (cases "strstr buffer (target_disk cfg) \<noteq> None")
      case True
      then show ?thesis
        using "1.prems" Some got by (simp add: diskstats_scan.simps [of cfg stream])
    next
      case False
      then show ?thesis
        using "1.prems" "1.IH" [OF Some got [symmetric]] Some got
        by (simp add: diskstats_scan.simps [of cfg stream])
    qed
  qed
qed

lemma get_diskstats_hash_absent:
  "fst (get_diskstats_hash cfg None s) = 0"
  "\<not> fst (diskstats_scan cfg content :: bool \<times> 'a::len word)
     \<Longrightarrow> fst (get_diskstats_hash cfg (Some content) (s :: 'a word machine)) = 0"
  using diskstats_scan_not_found [of cfg content, where 'a = 'a]
  by (simp_all add: get_diskstats_hash_def case_prod_beta)

lemma example_scan_other:
  "\<not> fst (diskstats_scan example_cfg example_file_other :: bool \<times> 64 word)"
  by (simp add: diskstats_scan.simps example_cfg_def example_file_other_def
      fgets_def MAX_LINE_LENGTH_def strstr_def cstr_def)

subsection \<open>Unreadable source\<close>

text \<open>
  Claim C4. On a tick whose fingerprint reads zero the loop attempts no write to the LED
  and leaves the LED, the baseline and the activity counter as they were. The
  fingerprint reads zero when the source cannot be opened and when no line holds the key.
  Hence, when the source is unreadable for one tick and then reads again what gave the
  stored baseline, no pulse is emitted over the two ticks and the baseline is kept.
\<close>

theorem tick_on_zero_reading:
  fixes s :: "'a::len word machine"
  shows "(fst (get_diskstats_hash cfg (diskstats env) s) = 0 \<longrightarrow>
            led_attempts (tick cfg env s) = led_attempts s
          \<and> led (tick cfg env s) = led s
          \<and> last_hash (tick cfg env s) = last_hash s
          \<and> activity_count (tick cfg env s) = activity_count s)
       \<and> (diskstats env = None \<longrightarrow> fst (get_diskstats_hash cfg (diskstats env) s) = 0)
       \<and> (diskstats env = Some content
            \<and> \<not> fst (diskstats_scan cfg content :: bool \<times> 'a word) \<longrightarrow>
              fst (get_diskstats_hash cfg (diskstats env) s) = 0)
       \<and> (diskstats env = None
            \<and> fst (get_diskstats_hash cfg (diskstats env') s) = last_hash s \<longrightarrow>
              led_attempts (tick cfg env' (tick cfg env s)) = led_attempts s
            \<and> led (tick cfg env' (tick cfg env s)) = led s
            \<and> last_hash (tick cfg env' (tick cfg env s)) = last_hash s
            \<and> activity_count (tick cfg env' (tick cfg env s)) = activity_count s)"
proof (intro conjI impI)
  assume z: "fst (get_diskstats_hash cfg (diskstats env) s) = 0"
  show "led_attempts (tick cfg env s) = led_attempts s"
    and "led (tick cfg env s) = led s"
    and "last_hash (tick cfg env s) = last_hash s"
    and "activity_count (tick cfg env s) = activity_count s"
    using z by (simp_all add: tick_unchanged)
next
  assume "diskstats env = None"
  then show "fst (get_diskstats_hash cfg (diskstats env) s) = 0"
    by (simp add: get_diskstats_hash_absent)
next
  assume "diskstats env = Some content \<and> \<not> fst (diskstats_scan cfg content :: bool \<times> 'a word)"
  then show "fst (get_diskstats_hash cfg (diskstats env) s) = 0"
    by (simp add: get_diskstats_hash_absent)
next
  assume a: "diskstats env = None
    \<and> fst (get_diskstats_hash cfg (diskstats env') s) = last_hash s"
  then have z: "fst (get_diskstats_hash cfg (diskstats env) s) = 0"
    by (simp add: get_diskstats_hash_absent)
  have one: "led_attempts (tick cfg env s) = led_attempts s" "led (tick cfg env s) = led s"
    "last_hash (tick cfg env s) = last_hash s" "activity_count (tick cfg env s) = activity_count s"
    using z by (simp_all add: tick_unchanged)
  have r: "fst (get_diskstats_hash cfg (diskstats env') (tick cfg env s)) = last_hash (tick cfg env s)"
    using a get_diskstats_hash_value [of cfg "diskstats env'" "tick cfg env s" s] one(3)
    by simp
  show "led_attempts (tick cfg env' (tick cfg env s)) = led_attempts s"
    and "led (tick cfg env' (tick cfg env s)) = led s"
    and "last_hash (tick cfg env' (tick cfg env s)) = last_hash s"
    and "activity_count (tick cfg env' (tick cfg env s)) = activity_count s"
    using r one by (simp_all add: tick_unchanged)
qed

theorem tick_on_zero_reading_witness:
  "diskstats (example_env None) = None
   \<and> fst (get_diskstats_hash example_cfg (diskstats (example_env None)) example_machine) = 0
   \<and> fst (get_diskstats_hash example_cfg (diskstats (example_env (Some example_file_a)))
        example_machine) = last_hash example_machine
   \<and> led_attempts (tick example_cfg (example_env None) example_machine) = []
   \<and> last_hash (tick example_cfg (example_env None) example_machine) = 8244072659545215910
   \<and> activity_count (tick example_cfg (example_env None) example_machine) = 0
   \<and> led_attempts (tick example_cfg (example_env (Some example_file_a))
        (tick example_cfg (example_env None) example_machine)) = []
   \<and> last_hash (tick example_cfg (example_env (Some example_file_a))
        (tick example_cfg (example_env None) example_machine)) = 8244072659545215910
   \<and> diskstats (example_env (Some example_file_other)) = Some example_file_other
   \<and> \<not> fst (diskstats_scan example_cfg example_file_other :: bool \<times> 64 word)
   \<and> fst (get_diskstats_hash example_cfg (diskstats (example_env (Some example_file_other)))
        example_machine) = 0
   \<and> led_attempts (tick example_cfg (example_env (Some example_file_other)) example_machine) = []"
  using tick_on_zero_reading [of example_cfg "example_env None" example_machine
      example_file_other "example_env (Some example_file_a)"]
    tick_on_zero_reading [of example_cfg "example_env (Some example_file_other)" example_machine
      example_file_other "example_env (Some example_file_a)"]
  by (simp add: example_reading_a example_scan_other)

subsection \<open>A zero baseline\<close>

text \<open>
  Claim C8 says that the change decision with a zero baseline is false for every current
  fingerprint. The comparison of the code is \<^verbatim>\<open>current_hash != last_hash && current_hash != 0\<close>:
  with a zero baseline and the non-zero reading of \<open>example_file_b\<close> the tick emits a
  pulse.
\<close>

theorem zero_baseline_counterexample:
  "last_hash (example_machine\<lparr>last_hash := 0\<rparr>) = 0
   \<and> fst (get_diskstats_hash example_cfg (diskstats (example_env (Some example_file_b)))
        (example_machine\<lparr>last_hash := 0\<rparr>)) = 8244072659545215976
   \<and> led_attempts (tick example_cfg (example_env (Some example_file_b))
        (example_machine\<lparr>last_hash := 0\<rparr>)) = [Led_attempt 1 Written, Led_attempt 0 Written]
   \<and> led_attempts (example_machine\<lparr>last_hash := 0\<rparr>) = []"
  using tick_changed(4) [of example_cfg "example_env (Some example_file_b)"
      "example_machine\<lparr>last_hash := 0\<rparr>" 8244072659545215976]
  by (simp add: example_reading_b)

text \<open>
  Claim C8 as amended. With a zero baseline the change decision is true exactly when the
  current fingerprint is not zero; it is a zero current fingerprint that never registers
  a change, whatever the baseline.
\<close>

theorem zero_baseline_decision:
  "((led_attempts (handle_reading cfg env y (s\<lparr>last_hash := 0\<rparr>)) \<noteq> led_attempts s) = (y \<noteq> 0))
   \<and> ((led_attempts (tick cfg env (s\<lparr>last_hash := 0\<rparr>)) \<noteq> led_attempts s)
        = (fst (get_diskstats_hash cfg (diskstats env) s) \<noteq> 0))
   \<and> led_attempts (handle_reading cfg env 0 s) = led_attempts s"
proof -
  have a: "(led_attempts (handle_reading cfg env c t) \<noteq> led_attempts t)
      = (c \<noteq> last_hash t \<and> c \<noteq> 0)" for c and t :: "'a word machine"
    using handle_reading_changed(4) [of c t cfg env] handle_reading_unchanged(4) [of c t cfg env]
    by auto
  have b: "(led_attempts (tick cfg env (s\<lparr>last_hash := 0\<rparr>)) \<noteq> led_attempts s)
        = (fst (get_diskstats_hash cfg (diskstats env) s) \<noteq> 0)"
    unfolding tick_handle_reading
    using a [of "fst (get_diskstats_hash cfg (diskstats env) (s\<lparr>last_hash := 0\<rparr>))"
        "deliver cfg env After_read
          (snd (get_diskstats_hash cfg (diskstats env)
             (deliver cfg env Before_read (s\<lparr>last_hash := 0\<rparr>))))"]
      get_diskstats_hash_value [of cfg "diskstats env" "s\<lparr>last_hash := 0\<rparr>" s]
    by auto
  show ?thesis
    using a [of y "s\<lparr>last_hash := 0\<rparr>"] a [of 0 s] b by simp
qed

subsection \<open>The running flag\<close>

lemma blink_led_running:
  "running (blink_led cfg env s) =
     (if After_led_on \<in> fst ` set (signals env) \<or> After_hold \<in> fst ` set (signals env)
         \<or> After_led_off \<in> fst ` set (signals env)
      then 0 else running s)"
  by (simp add: blink_led_def Let_def deliver_running)

lemma handle_reading_running_changed:
  assumes "current \<noteq> last_hash s" and "current \<noteq> 0"
  shows "running (handle_reading cfg env current s) =
     (if fst ` set (signals env) \<inter>
           {After_count, After_log, After_led_on, After_hold, After_led_off, After_baseline,
            During_wait} \<noteq> {}
      then 0 else running s)"
  using assms by (simp add: handle_reading_def Let_def deliver_running blink_led_running)

lemma handle_reading_running_unchanged:
  assumes "current = last_hash s \<or> current = 0"
  shows "running (handle_reading cfg env current s) =
     (if During_wait \<in> fst ` set (signals env) then 0 else running s)"
  using assms by (auto simp add: handle_reading_def Let_def deliver_running)

lemma tick_running_changed:
  assumes "fst (get_diskstats_hash cfg (diskstats env) s) = current"
    and "current \<noteq> last_hash s" and "current \<noteq> 0"
  shows "running (tick cfg env s) =
     (if fst ` set (signals env) \<inter>
           {Before_read, After_read, After_count, After_log, After_led_on, After_hold,
            After_led_off, After_baseline, During_wait} \<noteq> {}
      then 0 else running s)"
  using assms
  by (simp add: tick_handle_reading handle_reading_running_changed deliver_running)

lemma tick_running_unchanged:
  assumes "fst (get_diskstats_hash cfg (diskstats env) s) = current"
    and "current = last_hash s \<or> current = 0"
  shows "running (tick cfg env s) =
     (if fst ` set (signals env) \<inter> {Before_read, After_read, During_wait} \<noteq> {}
      then 0 else running s)"
  using assms
  by (simp add: tick_handle_reading handle_reading_running_unchanged deliver_running)

lemma main_loop_stopped:
  assumes "running s = 0"
  shows "\<exists>sf. main_loop cfg envs s = Some sf \<and> running sf = 0 \<and> last_hash sf = last_hash s
           \<and> activity_count sf = activity_count s \<and> led sf = led s
           \<and> actuator_events sf = actuator_events s \<and> led_attempts sf = led_attempts s"
  using assms by (cases envs) (simp_all add: deliver_running Let_def)

lemma main_loop_step:
  assumes "running (deliver cfg env At_loop_test s) \<noteq> 0"
  shows "main_loop cfg (env # envs) s = main_loop cfg envs (tick cfg env (deliver cfg env At_loop_test s))"
  using assms by (simp add: Let_def)

lemma deliver_none:
  assumes "p \<notin> fst ` set (signals env)"
  shows "deliver cfg env p s = s"
proof -
  have "filter (\<lambda>x. fst x = p) (signals env) = []"
    using assms by (auto simp: filter_empty_conv)
  then show ?thesis
    by (simp add: deliver_def)
qed

lemma main_run_Some:
  assumes "main_loop cfg envs s = Some sf"
  shows "\<exists>sx. main_run cfg envs s = Some (0, sx) \<and> running sx = running sf
           \<and> last_hash sx = last_hash sf \<and> activity_count sx = activity_count sf
           \<and> led sx = led sf \<and> actuator_events sx = actuator_events sf
           \<and> led_attempts sx = led_attempts sf"
  using assms by (simp add: main_run_def)

lemma example_env_signal_fields [simp]:
  "diskstats example_env_signal = Some example_file_b"
  "led_on example_env_signal = Written"
  "led_off example_env_signal = Written"
  "signals example_env_signal = [(After_led_on, 2)]"
  by (simp_all add: example_env_signal_def)

lemma example_env_failing_fields [simp]:
  "diskstats example_env_failing = Some example_file_b"
  "led_on example_env_failing = Open_failed"
  "led_off example_env_failing = Write_failed"
  "signals example_env_failing = []"
  by (simp_all add: example_env_failing_def)

subsection \<open>Termination request during a pulse\<close>

lemma example_scan_b:
  "diskstats_scan example_cfg example_file_b = (True, 8244072659545215976 :: 64 word)"
  by (simp add: diskstats_scan.simps example_cfg_def example_file_b_def
      fgets_def MAX_LINE_LENGTH_def strstr_def cstr_def hash_string_def char_value_def)

lemma example_cfg_fields:
  "target_disk example_cfg = [115, 100, 97]"
  "debug_mode example_cfg = False"
  "char_signed example_cfg = True"
  by (simp_all add: example_cfg_def)

text \<open>
  Claim C7 says that a pulse during which the termination request arrives completes, so
  that the actuator ends in the inactive state. The pulse does make both attempts, but
  \<^verbatim>\<open>blink_led\<close> does not look at what comes of them and nothing after the loop writes
  the LED: when \<^verbatim>\<open>SIGINT\<close> arrives after the activating write and the brightness file
  cannot be opened for the deactivating write, \<^verbatim>\<open>main\<close> returns 0 and the LED is left
  at brightness 1.
\<close>

theorem signal_during_pulse_counterexample:
  "main_run example_cfg [example_env_stuck] example_machine =
     Some (0, \<lparr>running = 0, last_hash = 8244072659545215976, activity_count = 1, led = 1,
               trace = [Led_attempt 1 Written, Usleep LED_BLINK_DURATION,
                        Led_attempt 0 Open_failed, Usleep MONITOR_INTERVAL]\<rparr>)"
  by (simp add: main_run_def tick_def deliver_def example_env_stuck_def example_machine_def
      get_diskstats_hash_def example_scan_b example_cfg_fields handle_reading_def
      blink_led_def set_led_brightness_def usleep_def emit_def signal_handler_def Let_def)

text \<open>
  Claim C7 as amended. The loop looks at the termination request at the loop test only.
  When a tick that the loop has entered detects a change and the request arrives while
  the pulse is in progress (after the activating write or after the hold), the tick
  still runs to its end: activating attempt, the call of the hold, deactivating attempt,
  wait (how long a sleep that the signal interrupts lasts is not said). The LED ends at
  brightness 0 when the deactivating write takes effect; when it does not, the LED stays
  at 1 if the activating write took effect and otherwise as it was. The flag is then
  clear, the loop exits at the next test without touching the LED again, and
  \<^verbatim>\<open>main\<close> returns 0.
\<close>

theorem signal_during_pulse:
  assumes "fst (get_diskstats_hash cfg (diskstats env) s) = current"
    and "current \<noteq> last_hash s" and "current \<noteq> 0"
    and "running s \<noteq> 0" and "At_loop_test \<notin> fst ` set (signals env)"
    and "(p, sig) \<in> set (signals env)" and "p = After_led_on \<or> p = After_hold"
  shows "actuator_events (tick cfg env s) =
           actuator_events s @ [Led_attempt 1 (led_on env), Usleep LED_BLINK_DURATION,
             Led_attempt 0 (led_off env), Usleep MONITOR_INTERVAL]
       \<and> led (tick cfg env s) =
           (if led_off env = Written then 0 else if led_on env = Written then 1 else led s)
       \<and> running (tick cfg env s) = 0
       \<and> (\<exists>sf. main_run cfg (env # envs) s = Some (0, sf)
             \<and> actuator_events sf = actuator_events (tick cfg env s)
             \<and> led sf = led (tick cfg env s)
             \<and> last_hash sf = current
             \<and> activity_count sf = activity_count s + 1)"
proof (intro conjI impI)
  show "actuator_events (tick cfg env s) =
      actuator_events s @ [Led_attempt 1 (led_on env), Usleep LED_BLINK_DURATION,
        Led_attempt 0 (led_off env), Usleep MONITOR_INTERVAL]"
    using assms(1-3) by (rule tick_changed(5))
  show "led (tick cfg env s) =
      (if led_off env = Written then 0 else if led_on env = Written then 1 else led s)"
    using assms(1-3) by (rule tick_changed(3))
  have "p \<in> fst ` set (signals env)"
    using assms(6) by force
  then have "fst ` set (signals env) \<inter>
      {Before_read, After_read, After_count, After_log, After_led_on, After_hold,
       After_led_off, After_baseline, During_wait} \<noteq> {}"
    using assms(7) by blast
  then show stopped: "running (tick cfg env s) = 0"
    by (simp add: tick_running_changed [OF assms(1-3)])
  have enter: "deliver cfg env At_loop_test s = s"
    using assms(5) by (rule deliver_none)
  have step: "main_loop cfg (env # envs) s = main_loop cfg envs (tick cfg env s)"
    using main_loop_step [of cfg env s envs] assms(4) enter by simp
  obtain sl where sl: "main_loop cfg envs (tick cfg env s) = Some sl"
    "last_hash sl = last_hash (tick cfg env s)"
    "activity_count sl = activity_count (tick cfg env s)"
    "led sl = led (tick cfg env s)"
    "actuator_events sl = actuator_events (tick cfg env s)"
    using main_loop_stopped [OF stopped, of cfg envs] by blast
  obtain sf where sf: "main_run cfg (env # envs) s = Some (0, sf)"
    "last_hash sf = last_hash sl" "activity_count sf = activity_count sl"
    "led sf = led sl" "actuator_events sf = actuator_events sl"
    using main_run_Some [of cfg "env # envs" s sl] sl(1) step by auto
  show "\<exists>sf. main_run cfg (env # envs) s = Some (0, sf)
      \<and> actuator_events sf = actuator_events (tick cfg env s)
      \<and> led sf = led (tick cfg env s)
      \<and> last_hash sf = current
      \<and> activity_count sf = activity_count s + 1"
    using sf sl tick_changed(1,2) [OF assms(1-3)] by auto
qed

theorem signal_during_pulse_witness:
  "fst (get_diskstats_hash example_cfg (diskstats example_env_signal) example_machine)
     = 8244072659545215976
   \<and> (8244072659545215976 :: 64 word) \<noteq> last_hash example_machine
   \<and> (8244072659545215976 :: 64 word) \<noteq> 0
   \<and> running example_machine \<noteq> 0
   \<and> At_loop_test \<notin> fst ` set (signals example_env_signal)
   \<and> (After_led_on, 2) \<in> set (signals example_env_signal)
   \<and> actuator_events (tick example_cfg example_env_signal example_machine) =
        [Led_attempt 1 Written, Usleep LED_BLINK_DURATION, Led_attempt 0 Written,
         Usleep MONITOR_INTERVAL]
   \<and> led (tick example_cfg example_env_signal example_machine) = 0
   \<and> running (tick example_cfg example_env_signal example_machine) = 0
   \<and> (\<exists>sf. main_run example_cfg [example_env_signal, example_env (Some example_file_a)]
               example_machine = Some (0, sf)
            \<and> actuator_events sf =
                [Led_attempt 1 Written, Usleep LED_BLINK_DURATION, Led_attempt 0 Written,
                 Usleep MONITOR_INTERVAL]
            \<and> led sf = 0)"
  using signal_during_pulse [of example_cfg example_env_signal example_machine
      8244072659545215976 After_led_on 2 "[example_env (Some example_file_a)]"]
  by (auto simp add: example_reading_b)


subsection \<open>Failing writes to the LED\<close>

lemma blink_led_program_vars:
  "program_vars (blink_led cfg (env\<lparr>led_on := a, led_off := b\<rparr>) s) = program_vars (blink_led cfg env s)"
  by (simp add: program_vars_def blink_led_running)

lemma handle_reading_program_vars:
  "program_vars (handle_reading cfg (env\<lparr>led_on := a, led_off := b\<rparr>) current s)
     = program_vars (handle_reading cfg env current s)"
proof (cases "current \<noteq> last_hash s \<and> current \<noteq> 0")
  case True
  then show ?thesis
    by (simp add: program_vars_def handle_reading_changed handle_reading_running_changed)
next
  case False
  then have "current = last_hash s \<or> current = 0"
    by blast
  then show ?thesis
    by (simp add: program_vars_def handle_reading_unchanged handle_reading_running_unchanged)
qed

lemma tick_program_vars:
  "program_vars (tick cfg (env\<lparr>led_on := a, led_off := b\<rparr>) s) = program_vars (tick cfg env s)"
proof -
  have d: "deliver cfg (env\<lparr>led_on := a, led_off := b\<rparr>) p t = deliver cfg env p t"
    for p and t :: "'a word machine"
    by (simp add: deliver_def)
  show ?thesis
    by (simp add: tick_handle_reading d handle_reading_program_vars)
qed

text \<open>
  Claim C6 says that a failing write of the pulse is propagated to the pulse's caller as an
  I/O error. \<^verbatim>\<open>set_led_brightness\<close> does return \<open>-1\<close> when the brightness file cannot be
  opened, but \<^verbatim>\<open>blink_led\<close> is a \<^verbatim>\<open>void\<close> function that drops it: after a pulse whose
  writes both fail the caller holds the same variables as after a pulse whose writes both
  succeed, and a failed write after a successful open gives \<open>0\<close> even to \<^verbatim>\<open>blink_led\<close>.
\<close>

theorem pulse_failure_counterexample:
  "fst (set_led_brightness example_cfg Open_failed 1 example_machine) = - 1
   \<and> fst (set_led_brightness example_cfg Write_failed 1 example_machine) = 0
   \<and> fst (set_led_brightness example_cfg Written 1 example_machine) = 0
   \<and> program_vars (blink_led example_cfg example_env_failing example_machine)
       = program_vars (blink_led example_cfg (example_env (Some example_file_b)) example_machine)
   \<and> led_attempts (blink_led example_cfg example_env_failing example_machine)
       = [Led_attempt 1 Open_failed, Led_attempt 0 Write_failed]"
  by (simp add: set_led_brightness_def program_vars_def blink_led_running Let_def)

text \<open>
  Claim C6 as amended. Whatever comes of the two writes of a pulse, nothing of it reaches
  the caller of the pulse: the variables of the program after the pulse, and after the
  whole tick, are those of a run in which both writes succeed (\<^verbatim>\<open>set_led_brightness\<close>
  itself reports a failed open by \<open>-1\<close> and a failed write not at all). The loop is not
  aborted: on a detected change the change is counted and the baseline updated, also when
  the writes fail, and a loop that is still running goes on with the next tick.
\<close>

theorem pulse_failure_absorbed:
  assumes "fst (get_diskstats_hash cfg (diskstats env) s) = current"
    and "current \<noteq> last_hash s" and "current \<noteq> 0"
  shows "program_vars (blink_led cfg env t)
           = program_vars (blink_led cfg (env\<lparr>led_on := Written, led_off := Written\<rparr>) t)
       \<and> fst (set_led_brightness cfg Open_failed b t) = - 1
       \<and> fst (set_led_brightness cfg Write_failed b t) = 0
       \<and> led_attempts (tick cfg env s)
           = led_attempts s @ [Led_attempt 1 (led_on env), Led_attempt 0 (led_off env)]
       \<and> activity_count (tick cfg env s) = activity_count s + 1
       \<and> last_hash (tick cfg env s) = current
       \<and> program_vars (tick cfg env s)
           = program_vars (tick cfg (env\<lparr>led_on := Written, led_off := Written\<rparr>) s)
       \<and> (running (deliver cfg env At_loop_test s) \<noteq> 0 \<longrightarrow>
            main_loop cfg (env # envs) s
              = main_loop cfg envs (tick cfg env (deliver cfg env At_loop_test s)))"
  using tick_changed(1,2,4) [OF assms]
  by (simp add: blink_led_program_vars tick_program_vars set_led_brightness_def Let_def)

theorem pulse_failure_absorbed_witness:
  "fst (get_diskstats_hash example_cfg (diskstats example_env_failing) example_machine)
     = 8244072659545215976
   \<and> (8244072659545215976 :: 64 word) \<noteq> last_hash example_machine
   \<and> (8244072659545215976 :: 64 word) \<noteq> 0
   \<and> led_attempts (tick example_cfg example_env_failing example_machine)
       = [Led_attempt 1 Open_failed, Led_attempt 0 Write_failed]
   \<and> activity_count (tick example_cfg example_env_failing example_machine) = 1
   \<and> last_hash (tick example_cfg example_env_failing example_machine) = 8244072659545215976
   \<and> running (deliver example_cfg example_env_failing At_loop_test example_machine) \<noteq> 0
   \<and> main_loop example_cfg [example_env_failing, example_env (Some example_file_b)] example_machine
       = main_loop example_cfg [example_env (Some example_file_b)]
           (tick example_cfg example_env_failing
              (deliver example_cfg example_env_failing At_loop_test example_machine))"
  using pulse_failure_absorbed [of example_cfg example_env_failing example_machine
      8244072659545215976 example_machine 1 "[example_env (Some example_file_b)]"]
  by (simp add: example_reading_b deliver_running)

subsection \<open>The signal handler\<close>

lemma same_but_running_handler:
  "same_but_running s t \<Longrightarrow>
     same_but_running (signal_handler cfg sig s) (signal_handler cfg sig t)"
  by (simp add: same_but_running_def signal_handler_def emit_def Let_def)

lemma same_but_running_handlers:
  "same_but_running s t \<Longrightarrow>
     same_but_running (fold (signal_handler cfg) sigs s) (fold (signal_handler cfg) sigs t)"
  by (induction sigs arbitrary: s t) (simp_all add: same_but_running_handler)

lemma same_but_running_deliver:
  "same_but_running s t \<Longrightarrow> same_but_running (deliver cfg env p s) (deliver cfg env p t)"
  by (simp add: deliver_def same_but_running_handlers)

lemma same_but_running_set_led:
  "same_but_running s t \<Longrightarrow>
     same_but_running (snd (set_led_brightness cfg r b s)) (snd (set_led_brightness cfg r b t))"
  by (cases r) (simp_all add: same_but_running_def set_led_brightness_def emit_def Let_def)

lemma same_but_running_usleep:
  "same_but_running s t \<Longrightarrow> same_but_running (usleep n s) (usleep n t)"
  by (simp add: same_but_running_def usleep_def emit_def)

lemma same_but_running_blink_led:
  "same_but_running s t \<Longrightarrow> same_but_running (blink_led cfg env s) (blink_led cfg env t)"
  by (simp add: blink_led_def Let_def same_but_running_deliver same_but_running_set_led
      same_but_running_usleep)

lemma same_but_running_updates:
  "same_but_running s t \<Longrightarrow> same_but_running (s\<lparr>last_hash := h\<rparr>) (t\<lparr>last_hash := h\<rparr>)"
  "same_but_running s t \<Longrightarrow>
     same_but_running (s\<lparr>activity_count := c\<rparr>) (t\<lparr>activity_count := c\<rparr>)"
  "same_but_running s t \<Longrightarrow> same_but_running (emit e s) (emit e t)"
  by (simp_all add: same_but_running_def emit_def)

lemma same_but_running_handle_reading:
  assumes "same_but_running s t"
  shows "same_but_running (handle_reading cfg env current s) (handle_reading cfg env current t)"
proof -
  have l: "last_hash s = last_hash t" and c: "activity_count s = activity_count t"
    using assms by (simp_all add: same_but_running_def)
  show ?thesis
    using assms
    by (simp add: handle_reading_def Let_def l c same_but_running_deliver
        same_but_running_blink_led same_but_running_updates same_but_running_usleep)
qed

lemma same_but_running_get_diskstats_hash:
  "same_but_running s t \<Longrightarrow>
     same_but_running (snd (get_diskstats_hash cfg file s)) (snd (get_diskstats_hash cfg file t))"
  by (simp add: get_diskstats_hash_def same_but_running_updates case_prod_beta split: option.split)

lemma same_but_running_tick:
  assumes "same_but_running s t"
  shows "same_but_running (tick cfg env s) (tick cfg env t)"
  unfolding tick_handle_reading
  using get_diskstats_hash_value [of cfg "diskstats env" s t]
  by (simp add: assms same_but_running_handle_reading same_but_running_deliver
      same_but_running_get_diskstats_hash)

text \<open>
  Claim C9 says that the handler does no printing, in verbose mode too. The handler
  begins with \<^verbatim>\<open>if (debug_mode) printf(...)\<close>: in verbose mode it writes its message to
  the standard output before it clears the flag.
\<close>

theorem signal_handler_counterexample:
  "debug_mode (example_cfg\<lparr>debug_mode := True\<rparr>)
   \<and> trace example_machine = []
   \<and> trace (signal_handler (example_cfg\<lparr>debug_mode := True\<rparr>) 2 example_machine)
       = [Stdout (Msg_signal 2)]"
  by (simp add: signal_handler_def emit_def example_machine_def)

text \<open>
  Claim C9 as amended. The handler clears the flag \<open>running\<close> and touches no other
  variable and not the LED; in quiet mode it does nothing else, in verbose mode it first
  prints one message. The loop reads the flag once per iteration, at the loop test: the
  loop body gives the same baseline, counter, LED and trace whatever the flag holds.
\<close>

theorem signal_handler_effect:
  "running (signal_handler cfg sig s) = 0
   \<and> last_hash (signal_handler cfg sig s) = last_hash s
   \<and> activity_count (signal_handler cfg sig s) = activity_count s
   \<and> led (signal_handler cfg sig s) = led s
   \<and> trace (signal_handler cfg sig s)
       = (if debug_mode cfg then trace s @ [Stdout (Msg_signal sig)] else trace s)
   \<and> main_loop cfg (env # envs) s
       = (if running (deliver cfg env At_loop_test s) \<noteq> 0
          then main_loop cfg envs (tick cfg env (deliver cfg env At_loop_test s))
          else Some (deliver cfg env At_loop_test s))
   \<and> same_but_running (tick cfg env (s\<lparr>running := r\<rparr>)) (tick cfg env s)"
proof -
  have "same_but_running (s\<lparr>running := r\<rparr>) s"
    by (simp add: same_but_running_def)
  then have "same_but_running (tick cfg env (s\<lparr>running := r\<rparr>)) (tick cfg env s)"
    by (rule same_but_running_tick)
  then show ?thesis
    by (simp add: signal_handler_def emit_def Let_def)
qed

lemma hash_loop_foldl:
  "hash_loop sch h buf =
     foldl (\<lambda>accumulator b. accumulator * 33 + of_int (char_value sch b)) h (cstr buf)"
proof (induction buf arbitrary: h)
  case Nil
  show ?case by (simp add: cstr_def)
next
  case (Cons b buf)
  show ?case
  proof (cases "b = 0")
    case True
    then show ?thesis by (simp add: cstr_def)
  next
    case False
    have "hash_loop sch h (b # buf) = hash_loop sch (h * 33 + of_int (char_value sch b)) buf"
      using False by (simp add: push_bit_eq_mult mult.commute)
    also have "\<dots> = foldl (\<lambda>accumulator b. accumulator * 33 + of_int (char_value sch b))
        (h * 33 + of_int (char_value sch b)) (cstr buf)"
      by (rule Cons)
    also have "\<dots> = foldl (\<lambda>accumulator b. accumulator * 33 + of_int (char_value sch b))
        h (cstr (b # buf))"
      using False by (simp add: cstr_def)
    finally show ?thesis .
  qed
qed

lemma char_value_ascii:
  assumes "c < 128"
  shows "char_value sch c = uint c"
proof -
  have "uint c < 128"
    using assms by (simp add: word_less_def)
  moreover have "- (2 ^ 7) \<le> uint c"
  proof -
    have "- (2 ^ 7) \<le> (0 :: int)"
      by simp
    also have "0 \<le> uint c"
      by (rule uint_ge_0)
    finally show ?thesis .
  qed
  ultimately have "signed_take_bit 7 (uint c) = uint c"
    by (intro signed_take_bit_int_eq_self) simp_all
  then have "sint c = uint c"
    by (simp add: sint_uint)
  then show ?thesis
    by (simp add: char_value_def)
qed

subsection \<open>The fingerprint\<close>

lemma char_value_high:
  assumes "128 \<le> c"
  shows "char_value True c = uint c - 256"
proof -
  have lo: "128 \<le> uint c"
    using assms by (simp add: word_le_def)
  have hi: "uint c < 256"
    using uint_bounded [of c] by simp
  have "signed_take_bit 7 (uint c) = take_bit 8 (uint c + 128) - 128"
    by (simp add: signed_take_bit_eq_take_bit_shift)
  also have "take_bit 8 (uint c + 128) = (uint c + 128) mod 256"
    by (simp add: take_bit_eq_mod)
  also have "(uint c + 128) mod 256 = uint c - 128"
    using lo hi by (simp add: mod_pos_geq)
  finally have "sint c = uint c - 256"
    by (simp add: sint_uint)
  then show ?thesis
    by (simp add: char_value_def)
qed

text \<open>
  Claim C2 says that for each byte of the line the accumulator becomes
  \<open>accumulator * 33 + byte\<close>. The code reads the line through a \<^verbatim>\<open>const char *\<close> into an
  \<^verbatim>\<open>int\<close>: where plain \<^verbatim>\<open>char\<close> is signed, a byte above 127 counts as a negative
  number. For the one-byte string with byte 128 the code gives 177445 on a 64-bit
  platform with signed \<^verbatim>\<open>char\<close>, and the rule of the claim gives \<open>5381 * 33 + 128 = 177701\<close>.
\<close>

theorem hash_string_counterexample:
  "cstr [128] = [128]
   \<and> hash_string True [128] = (177445 :: 64 word)
   \<and> djb2_spec uint (cstr [128]) = (177701 :: 64 word)
   \<and> hash_string True [128] \<noteq> (djb2_spec uint (cstr [128]) :: 64 word)"
  by (simp add: cstr_def hash_string_def djb2_spec_def char_value_def)

text \<open>
  Claim C2 as amended. \<^verbatim>\<open>hash_string\<close> is a function of the string in the buffer alone:
  from seed 5381 the accumulator becomes \<open>accumulator * 33 + c\<close> for each \<^verbatim>\<open>char\<close> of
  the string, where \<open>c\<close> is the \<^verbatim>\<open>char\<close> as the code reads it: the byte's value where
  plain \<^verbatim>\<open>char\<close> is unsigned and for every byte below 128, and the byte's value less 256
  for a byte from 128 on where plain \<^verbatim>\<open>char\<close> is signed. So on ASCII lines, and on
  every line where \<^verbatim>\<open>char\<close> is unsigned, it is the DJB2 function of the
  specification. Equal strings have equal fingerprints, and the fingerprint of the
  empty string is 5381, which is not zero in any word size.
\<close>

theorem hash_string_is_djb2:
  "hash_string sch buf = (djb2_spec (char_value sch) (cstr buf) :: 'a::len word)
   \<and> hash_string sch [] = (5381 :: 'a word)
   \<and> (5381 :: 'a word) \<noteq> 0
   \<and> (cstr buf = cstr buf' \<longrightarrow> hash_string sch buf = (hash_string sch buf' :: 'a word))
   \<and> (\<not> sch \<or> (\<forall>c \<in> set (cstr buf). c < 128) \<longrightarrow>
        hash_string sch buf = (djb2_spec uint (cstr buf) :: 'a word))
   \<and> char_value sch b = (if sch \<and> 128 \<le> b then uint b - 256 else uint b)"
proof (intro conjI impI)
  show "char_value sch b = (if sch \<and> 128 \<le> b then uint b - 256 else uint b)"
  proof (cases "sch \<and> 128 \<le> b")
    case True
    then show ?thesis
      by (simp add: char_value_high)
  next
    case False
    then have "\<not> sch \<or> b < 128"
      by auto
    then show ?thesis
      using False by (auto simp: char_value_ascii) (simp add: char_value_def)
  qed
  show eq: "hash_string sch buf = (djb2_spec (char_value sch) (cstr buf) :: 'a word)"
    by (simp add: hash_string_def djb2_spec_def hash_loop_foldl)
  show "hash_string sch [] = (5381 :: 'a word)"
    by (simp add: hash_string_def)
  show "(5381 :: 'a word) \<noteq> 0"
    by (metis even_zero odd_numeral)
  show "hash_string sch buf = (hash_string sch buf' :: 'a word)" if "cstr buf = cstr buf'"
    using that by (simp add: hash_string_def hash_loop_foldl)
  show "hash_string sch buf = (djb2_spec uint (cstr buf) :: 'a word)"
    if a: "\<not> sch \<or> (\<forall>c \<in> set (cstr buf). c < 128)"
  proof -
    have v: "char_value sch c = uint c" if "c \<in> set (cstr buf)" for c
      using a that by (auto simp: char_value_ascii) (simp add: char_value_def)
    have "foldl (\<lambda>accumulator b. accumulator * 33 + of_int (char_value sch b)) h xs
        = foldl (\<lambda>accumulator b. accumulator * 33 + of_int (uint b)) (h :: 'a word) xs"
      if "set xs \<subseteq> set (cstr buf)" for h xs
      using that by (induction xs arbitrary: h) (simp_all add: v)
    then show ?thesis
      by (simp add: eq djb2_spec_def)
  qed
qed

theorem hash_string_is_djb2_witness:
  "cstr (example_line @ [0, 120]) = cstr example_line
   \<and> hash_string True (example_line @ [0, 120]) = (hash_string True example_line :: 64 word)
   \<and> list_all (\<lambda>c. c < 128) (cstr example_line)
   \<and> (hash_string True example_line :: 64 word) = djb2_spec uint (cstr example_line)
   \<and> (hash_string True example_line :: 64 word) = 6385685767"
  using hash_string_is_djb2 [of True example_line "example_line @ [0, 120]", where 'a = 64]
  by (simp add: example_line_def cstr_def djb2_spec_def hash_string_def char_value_def)

subsection \<open>The scan of the source\<close>

lemma find_sub_iff:
  "(find_sub haystack needle \<noteq> None) = sublist needle haystack"
proof (induction haystack)
  case Nil
  show ?case by (cases needle) simp_all
next
  case (Cons h hs)
  show ?case
  proof (cases needle)
    case Nil
    then show ?thesis by simp
  next
    case (Cons x xs)
    then show ?thesis
      using Cons.IH by (auto simp add: sublist_Cons_right)
  qed
qed

lemma cstr_id:
  "0 \<notin> set l \<Longrightarrow> cstr l = l"
  by (simp add: cstr_def takeWhile_eq_all_conv) metis

lemma strstr_iff:
  "(strstr haystack needle \<noteq> None) = sublist (cstr needle) (cstr haystack)"
  by (simp only: strstr_def find_sub_iff)

lemma read_line_whole:
  assumes "l \<noteq> []" and "10 \<notin> set (butlast l)" and "length l \<le> n"
    and "last l = 10 \<or> rest = []"
  shows "read_line n (l @ rest) = (l, rest)"
  using assms
proof (induction l arbitrary: n)
  case Nil
  then show ?case by simp
next
  case (Cons b l)
  show ?case
  proof (cases "l = []")
    case True
    then show ?thesis
      using Cons.prems by (cases rest) auto
  next
    case False
    then have "read_line (n - 1) (l @ rest) = (l, rest)"
      using Cons.prems by (intro Cons.IH) auto
    then show ?thesis
      using Cons.prems False by auto
  qed
qed

lemma read_line_replicate:
  assumes "x \<noteq> 10" and "k \<le> n"
  shows "read_line n (replicate k x @ rest) =
     (replicate k x @ fst (read_line (n - k) rest), snd (read_line (n - k) rest))"
  using assms
proof (induction k arbitrary: n)
  case 0
  then show ?case by simp
next
  case (Suc k)
  then have "read_line (n - 1) (replicate k x @ rest) =
     (replicate k x @ fst (read_line (n - 1 - k) rest), snd (read_line (n - 1 - k) rest))"
    by (intro Suc.IH) auto
  then show ?case
    using Suc.prems by (simp add: case_prod_beta)
qed


lemma diskstats_scan_lines:
  assumes "\<forall>l \<in> set ls. l \<noteq> [] \<and> 10 \<notin> set (butlast l) \<and> 0 \<notin> set l
             \<and> length l < MAX_LINE_LENGTH"
    and "\<forall>l \<in> set (butlast ls). last l = 10"
  shows "diskstats_scan cfg (concat ls) =
     (case find (\<lambda>l. sublist (cstr (target_disk cfg)) l) ls of
        None \<Rightarrow> (False, 0)
      | Some l \<Rightarrow> (True, hash_string (char_signed cfg) l))"
  using assms
proof (induction ls)
  case Nil
  show ?case
    by (simp add: diskstats_scan.simps [of cfg "[]"] fgets_def)
next
  case (Cons l ls)
  have l: "l \<noteq> []" "10 \<notin> set (butlast l)" "0 \<notin> set l" "length l \<le> MAX_LINE_LENGTH - 1"
    using Cons.prems(1) by auto
  have e: "last l = 10 \<or> concat ls = []"
    using Cons.prems(2) by (cases ls) auto
  have got: "fgets MAX_LINE_LENGTH (concat (l # ls)) = Some (l, concat ls)"
    using l(1) read_line_whole [OF l(1) l(2) l(4) e] by (simp add: fgets_def)
  have m: "(strstr l (target_disk cfg) \<noteq> None) = sublist (cstr (target_disk cfg)) l"
    using strstr_iff [of l "target_disk cfg"] cstr_id [OF l(3)] by simp
  have rest: "diskstats_scan cfg (concat ls) =
     (case find (\<lambda>l. sublist (cstr (target_disk cfg)) l) ls of
        None \<Rightarrow> (False, 0 :: 'a word)
      | Some l \<Rightarrow> (True, hash_string (char_signed cfg) l))"
  proof (rule Cons.IH)
    show "\<forall>l \<in> set ls. l \<noteq> [] \<and> 10 \<notin> set (butlast l) \<and> 0 \<notin> set l
        \<and> length l < MAX_LINE_LENGTH"
      using Cons.prems(1) by simp
    show "\<forall>l \<in> set (butlast ls). last l = 10"
      using Cons.prems(2) by (cases ls) auto
  qed
  show ?case
  proof (cases "sublist (cstr (target_disk cfg)) l")
    case True
    then show ?thesis
      using got m by (simp add: diskstats_scan.simps [of cfg "l @ concat ls"])
  next
    case False
    then show ?thesis
      using got m rest by (simp add: diskstats_scan.simps [of cfg "l @ concat ls"])
  qed
qed

lemma example_long_line_scan:
  "diskstats_scan example_cfg example_long_line = (False, 0 :: 64 word)"
proof -
  have r: "read_line 1023 example_long_line = (replicate 1021 120 @ [115, 100], [97, 10])"
    unfolding example_long_line_def
    by (subst read_line_replicate) simp_all
  have "\<not> sublist [115, 100, 97] (replicate 1021 120 @ [115, 100 :: byte])"
  proof
    assume "sublist [115, 100, 97] (replicate 1021 120 @ [115, 100 :: byte])"
    then have "set [115, 100, 97] \<subseteq> set (replicate 1021 120 @ [115, 100 :: byte])"
      by (rule set_mono_sublist)
    then show False
      by simp
  qed
  then have n: "strstr (replicate 1021 120 @ [115, 100]) (target_disk example_cfg) = None"
    using strstr_iff [of "replicate 1021 120 @ [115, 100]" "target_disk example_cfg"]
    by (simp add: cstr_id example_cfg_def)
  have f: "example_long_line \<noteq> []"
    by (simp add: example_long_line_def)
  have "diskstats_scan example_cfg example_long_line
      = (diskstats_scan example_cfg [97, 10] :: bool \<times> 64 word)"
    using r n f
    by (simp add: diskstats_scan.simps [of example_cfg example_long_line] fgets_def
        MAX_LINE_LENGTH_def)
  also have "\<dots> = (False, 0)"
    by (simp add: diskstats_scan.simps example_cfg_def fgets_def MAX_LINE_LENGTH_def
        strstr_def cstr_def)
  finally show ?thesis .
qed

text \<open>
  Claim C5 says that for every sequence of source lines the first line that contains the
  key is returned. \<^verbatim>\<open>fgets\<close> reads into a buffer of \<open>MAX_LINE_LENGTH\<close> bytes, and
  \<^verbatim>\<open>strstr\<close> reads a buffer up to its first NUL. A line of 1025 bytes whose key
  \<^verbatim>\<open>sda\<close> begins at byte 1021 is read as two pieces, neither of which holds the key,
  and a line that begins with a NUL byte is read as the empty string: both lines contain
  the key, and for both the scan ends with \<^verbatim>\<open>found = 0\<close>.
\<close>

theorem diskstats_scan_counterexample:
  "sublist (cstr (target_disk example_cfg)) example_long_line
   \<and> length example_long_line = 1025
   \<and> last example_long_line = 10
   \<and> 10 \<notin> set (butlast example_long_line)
   \<and> 0 \<notin> set example_long_line
   \<and> diskstats_scan example_cfg (concat [example_long_line]) = (False, 0 :: 64 word)
   \<and> sublist (cstr (target_disk example_cfg)) example_nul_line
   \<and> length example_nul_line = 5
   \<and> diskstats_scan example_cfg (concat [example_nul_line]) = (False, 0 :: 64 word)"
proof -
  have "sublist [115, 100, 97 :: byte] (replicate 1021 120 @ [115, 100, 97] @ [10])"
    by (rule sublist_appendI)
  then have "sublist (cstr (target_disk example_cfg)) example_long_line"
    by (simp add: example_cfg_def cstr_def example_long_line_def)
  moreover have "sublist [115, 100, 97 :: byte] ([0] @ [115, 100, 97] @ [10])"
    by (rule sublist_appendI)
  then have "sublist (cstr (target_disk example_cfg)) example_nul_line"
    by (simp add: example_cfg_def cstr_def example_nul_line_def)
  moreover have "diskstats_scan example_cfg example_nul_line = (False, 0 :: 64 word)"
    by (simp add: diskstats_scan.simps example_cfg_def example_nul_line_def fgets_def
        MAX_LINE_LENGTH_def strstr_def cstr_def)
  ultimately show ?thesis
    using example_long_line_scan
    by (simp add: example_long_line_def example_nul_line_def butlast_append)
qed

text \<open>
  Claim C5 as amended. For every sequence of source lines that are shorter than
  \<open>MAX_LINE_LENGTH\<close> bytes (the newline counted) and hold no NUL byte, each but possibly
  the last ending in its newline, and for every key, the scan finds the first line in
  top-to-bottom order that contains the key as a substring and returns that line's
  fingerprint; it reports not-found exactly when no line contains the key. Every call
  reads the source anew from its top: what it returns depends on the source alone, not
  on the state an earlier call left.
\<close>

theorem diskstats_scan_first_match:
  fixes s s' :: "'a::len word machine"
  assumes "\<forall>l \<in> set ls. l \<noteq> [] \<and> 10 \<notin> set (butlast l) \<and> 0 \<notin> set l
             \<and> length l < MAX_LINE_LENGTH"
    and "\<forall>l \<in> set (butlast ls). last l = 10"
  shows "(diskstats_scan cfg (concat ls) :: bool \<times> 'a word) =
           (case find (\<lambda>l. sublist (cstr (target_disk cfg)) l) ls of
              None \<Rightarrow> (False, 0)
            | Some l \<Rightarrow> (True, hash_string (char_signed cfg) l))
       \<and> (fst (diskstats_scan cfg (concat ls) :: bool \<times> 'a word)
            = (\<exists>l \<in> set ls. sublist (cstr (target_disk cfg)) l))
       \<and> fst (get_diskstats_hash cfg (Some (concat ls)) s)
            = snd (diskstats_scan cfg (concat ls) :: bool \<times> 'a word)
       \<and> fst (get_diskstats_hash cfg (Some (concat ls)) s')
            = fst (get_diskstats_hash cfg (Some (concat ls)) s)"
proof -
  have a: "(diskstats_scan cfg (concat ls) :: bool \<times> 'a word) =
      (case find (\<lambda>l. sublist (cstr (target_disk cfg)) l) ls of
         None \<Rightarrow> (False, 0)
       | Some l \<Rightarrow> (True, hash_string (char_signed cfg) l))"
    using assms by (rule diskstats_scan_lines)
  have b: "fst (diskstats_scan cfg (concat ls) :: bool \<times> 'a word)
      = (\<exists>l \<in> set ls. sublist (cstr (target_disk cfg)) l)"
  proof (cases "find (\<lambda>l. sublist (cstr (target_disk cfg)) l) ls")
    case None
    then have "\<not> (\<exists>l \<in> set ls. sublist (cstr (target_disk cfg)) l)"
      by (simp add: find_None_iff)
    then show ?thesis
      unfolding a using None by simp
  next
    case (Some x)
    then have "x \<in> set ls \<and> sublist (cstr (target_disk cfg)) x"
      by (auto simp: find_Some_iff)
    then show ?thesis
      unfolding a using Some by auto
  qed
  show ?thesis
    using a b get_diskstats_hash_value [of cfg "Some (concat ls)" s' s]
    by (simp add: get_diskstats_hash_def case_prod_beta)
qed


theorem diskstats_scan_first_match_witness:
  "list_all (\<lambda>l. l \<noteq> [] \<and> 10 \<notin> set (butlast l) \<and> 0 \<notin> set l \<and> length l < MAX_LINE_LENGTH)
     [example_file_other, example_line_a]
   \<and> list_all (\<lambda>l. last l = 10) (butlast [example_file_other, example_line_a])
   \<and> concat [example_file_other, example_line_a] = example_file_a
   \<and> \<not> sublist (cstr (target_disk example_cfg)) example_file_other
   \<and> sublist (cstr (target_disk example_cfg)) example_line_a
   \<and> diskstats_scan example_cfg example_file_a
       = (True, hash_string (char_signed example_cfg) example_line_a :: 64 word)
   \<and> fst (get_diskstats_hash example_cfg (Some example_file_a) example_machine)
       = 8244072659545215910"
  using diskstats_scan_first_match [of "[example_file_other, example_line_a]" example_cfg
      example_machine example_machine]
  by (simp add: example_file_other_def example_line_a_def example_file_a_def example_cfg_def
      MAX_LINE_LENGTH_def cstr_def sublist_code hash_string_def char_value_def)

end
